theory Spec2Isabelle
  imports Main "HOL-Library.AList"
begin

section \<open>Errors raised by the Python code\<close>

text \<open>
  Every exception the modelled code can raise is a value; a function that may raise
  returns \<open>py_error + 'a\<close>, with \<open>Inl\<close> for the exception.
\<close>

datatype py_error =
    ZeroDivisionError
  | IndexError
  | KeyError string
  | AttributeError string
  | AssertionError string
  | ValueError string
  | NotImplementedError string

section \<open>Uniform layer-to-device mapper\<close>

text \<open>
  \<open>self.layer_to_device[layer_id] = v\<close>: a store into a Python list raises IndexError
  when the index is out of range. \<open>layer_id\<close> starts at 0 and is only ever incremented,
  so it is a natural number here.
\<close>

definition list_store :: "'a list \<Rightarrow> nat \<Rightarrow> 'a \<Rightarrow> py_error + 'a list" where
  "list_store xs i v = (if i < length xs then Inr (xs[i := v]) else Inl IndexError)"

text \<open>
  The base class \<open>DistributedStrategy\<close> holds \<open>from_meta\<close>; each concrete strategy
  extends it, as the subclasses do.
\<close>

record DistributedStrategy =
  from_meta :: bool

record UniformModelParallelStrategy = DistributedStrategy +
  layer_to_device :: "int list"

text \<open>
  The inner loop \<open>for i in range(layers_per_dev)\<close>: the first argument is the number of
  iterations left, the state is the table and \<open>layer_id\<close>.
\<close>

fun inner_loop :: "nat \<Rightarrow> int \<Rightarrow> int list \<times> nat \<Rightarrow> py_error + (int list \<times> nat)" where
  "inner_loop 0 dev (tbl, layer_id) = Inr (tbl, layer_id)"
| "inner_loop (Suc n) dev (tbl, layer_id) =
     (case list_store tbl layer_id dev of
        Inl e \<Rightarrow> Inl e
      | Inr tbl' \<Rightarrow> inner_loop n dev (tbl', layer_id + 1))"

text \<open>
  The outer loop \<open>for dev_idx in range(len(devices))\<close>, over the list of the indices
  still to visit. The state is the table, \<open>layer_id\<close> and \<open>remainder\<close>. Every
  \<open>dev_idx\<close> visited is below \<open>len(devices)\<close>, so \<open>devices[dev_idx]\<close> never raises.
\<close>

fun outer_loop ::
  "int list \<Rightarrow> int \<Rightarrow> nat list \<Rightarrow> int list \<times> nat \<times> int \<Rightarrow> py_error + (int list \<times> nat \<times> int)" where
  "outer_loop devices layers_per_dev [] st = Inr st"
| "outer_loop devices layers_per_dev (dev_idx # rest) (tbl, layer_id, remainder) =
     (case inner_loop (nat layers_per_dev) (devices ! dev_idx) (tbl, layer_id) of
        Inl e \<Rightarrow> Inl e
      | Inr (tbl1, layer_id1) \<Rightarrow>
          if remainder > 0 then
            (case list_store tbl1 layer_id1 (devices ! dev_idx) of
               Inl e \<Rightarrow> Inl e
             | Inr tbl2 \<Rightarrow>
                 outer_loop devices layers_per_dev rest (tbl2, layer_id1 + 1, remainder - 1))
          else outer_loop devices layers_per_dev rest (tbl1, layer_id1, remainder))"

text \<open>
  \<open>UniformModelParallelStrategy.__init__\<close>. Python's \<open>//\<close> is floor division and
  raises ZeroDivisionError on a zero divisor; \<open>[0] * num_layers\<close> is the empty list for
  a negative \<open>num_layers\<close>.
\<close>

definition UniformModelParallelStrategy_init ::
  "int list \<Rightarrow> int \<Rightarrow> bool \<Rightarrow> py_error + UniformModelParallelStrategy" where
  "UniformModelParallelStrategy_init devices num_layers fm =
     (let num_dev = int (length devices) in
      if num_dev = 0 then Inl ZeroDivisionError
      else
        let layers_per_dev = num_layers div num_dev;
            remainder = num_layers - layers_per_dev * num_dev;
            tbl0 = replicate (nat num_layers) 0
        in case outer_loop devices layers_per_dev [0..<length devices] (tbl0, 0, remainder) of
             Inl e \<Rightarrow> Inl e
           | Inr (tbl, layer_id, remainder') \<Rightarrow>
               Inr \<lparr>from_meta = fm, layer_to_device = tbl\<rparr>)"


text \<open>
  The table the constructor is expected to build, block by block, for the device indices
  \<open>ks\<close>, \<open>q\<close> layers per device and \<open>r\<close> devices still to receive an extra layer.
  It is used to state the loop invariant only.
\<close>

fun blocks :: "int list \<Rightarrow> nat \<Rightarrow> nat \<Rightarrow> nat list \<Rightarrow> int list" where
  "blocks devices q r [] = []"
| "blocks devices q r (k # ks) =
     replicate (q + (if 0 < r then 1 else 0)) (devices ! k) @ blocks devices q (r - 1) ks"

section \<open>Device mover\<close>

text \<open>
  An argument of a call is a tensor, with its payload and the device it lives on, or any
  other Python value. \<open>isinstance(arg, torch.Tensor)\<close> tests the first case.
\<close>

datatype ('t, 'd, 'a) py_value = Tensor 't 'd | NonTensor 'a

fun isinstance_Tensor :: "('t, 'd, 'a) py_value \<Rightarrow> bool" where
  "isinstance_Tensor (Tensor t d) = True"
| "isinstance_Tensor (NonTensor a) = False"

text \<open>
  \<open>arg.to(device)\<close> is a call into the tensor library: it gives the payload of the
  tensor on \<open>device\<close>, or it raises (a meta tensor has no data to copy to a real
  device). Whether the call raises for a payload, the device it is on and the device
  asked for, and with which exception, is the parameter \<open>to_raises\<close>. The method is
  only ever called on a tensor.
\<close>

type_synonym ('t, 'd) to_raises = "'t \<Rightarrow> 'd \<Rightarrow> 'd \<Rightarrow> py_error option"

fun to_device ::
  "('t, 'd) to_raises \<Rightarrow> ('t, 'd, 'a) py_value \<Rightarrow> 'd \<Rightarrow> py_error + ('t, 'd, 'a) py_value" where
  "to_device to_raises (Tensor t d) dv =
     (case to_raises t d dv of Some e \<Rightarrow> Inl e | None \<Rightarrow> Inr (Tensor t dv))"
| "to_device to_raises (NonTensor a) dv = Inl (AttributeError ''to'')"

text \<open>
  The wrapper holds the wrapped module, a callable on positional and keyword arguments
  that returns an output or raises, and the target device. A keyword dictionary is an
  association list in insertion order; \<open>kwargs[k]\<close> raises KeyError on a missing key.
\<close>

record ('t, 'd, 'a, 'o) DeviceMover =
  dm_module :: "('t, 'd, 'a) py_value list \<Rightarrow> (string \<times> ('t, 'd, 'a) py_value) list
                  \<Rightarrow> py_error + 'o"
  dm_device :: 'd

definition dict_get :: "(string \<times> 'v) list \<Rightarrow> string \<Rightarrow> py_error + 'v" where
  "dict_get d k = (case map_of d k of None \<Rightarrow> Inl (KeyError k) | Some v \<Rightarrow> Inr v)"

text \<open>
  The list comprehension \<open>[arg.to(device) if isinstance(arg, torch.Tensor) else arg for
  arg in args]\<close>, left to right; the first exception ends it.
\<close>

fun move_args ::
  "('t, 'd) to_raises \<Rightarrow> 'd \<Rightarrow> ('t, 'd, 'a) py_value list
     \<Rightarrow> py_error + ('t, 'd, 'a) py_value list" where
  "move_args to_raises dv [] = Inr []"
| "move_args to_raises dv (arg # args) =
     (case (if isinstance_Tensor arg then to_device to_raises arg dv else Inr arg) of
        Inl e \<Rightarrow> Inl e
      | Inr v \<Rightarrow>
          (case move_args to_raises dv args of
             Inl e \<Rightarrow> Inl e
           | Inr vs \<Rightarrow> Inr (v # vs)))"

text \<open>
  The dictionary comprehension \<open>{k: (kwargs[k].to(device) if isinstance(kwargs[k],
  torch.Tensor) else kwargs[k]) for k in kwargs}\<close>, over the keys still to visit, with
  the dictionary built so far.
\<close>

fun move_kwargs ::
  "('t, 'd) to_raises \<Rightarrow> 'd \<Rightarrow> (string \<times> ('t, 'd, 'a) py_value) list \<Rightarrow> string list
     \<Rightarrow> (string \<times> ('t, 'd, 'a) py_value) list
     \<Rightarrow> py_error + (string \<times> ('t, 'd, 'a) py_value) list" where
  "move_kwargs to_raises dv kwargs [] acc = Inr acc"
| "move_kwargs to_raises dv kwargs (k # ks) acc =
     (case dict_get kwargs k of
        Inl e \<Rightarrow> Inl e
      | Inr v \<Rightarrow>
          (case (if isinstance_Tensor v then to_device to_raises v dv else Inr v) of
             Inl e \<Rightarrow> Inl e
           | Inr v' \<Rightarrow> move_kwargs to_raises dv kwargs ks (AList.update k v' acc)))"

text \<open>
  \<open>DeviceMover.forward\<close>: the positional arguments are moved first, then the keyword
  arguments, then the wrapped module is called and its result is the result.
\<close>

definition DeviceMover_forward ::
  "('t, 'd) to_raises \<Rightarrow> ('t, 'd, 'a, 'o) DeviceMover \<Rightarrow> ('t, 'd, 'a) py_value list
     \<Rightarrow> (string \<times> ('t, 'd, 'a) py_value) list \<Rightarrow> py_error + 'o" where
  "DeviceMover_forward to_raises self args kwargs =
     (let dv = dm_device self in
      case move_args to_raises dv args of
        Inl e \<Rightarrow> Inl e
      | Inr args' \<Rightarrow>
          (case move_kwargs to_raises dv kwargs (map fst kwargs) [] of
             Inl e \<Rightarrow> Inl e
           | Inr kwargs' \<Rightarrow> dm_module self args' kwargs'))"

section \<open>Modules\<close>

text \<open>
  What the strategies read of a module: the name of its class, its \<open>attn\<close> attribute
  (\<open>None\<close> when the module has none) with the two head counts, and the list
  \<open>named_modules()\<close> yields, each sub-module with the outcome of the \<open>isinstance\<close>
  tests the classifier makes on it.
\<close>

record submodule =
  is_LayerNorm :: bool
  is_Dropout :: bool
  is_LayerNormParameterized :: bool
  is_Linear :: bool

record attention =
  nheads :: int
  kvheads :: int

record nn_module =
  type_name :: string
  attn :: "attention option"
  named_modules :: "(string \<times> submodule) list"

section \<open>Placement strategy interface\<close>

text \<open>
  \<open>str.split(",")\<close>: the pieces between the separators; the empty string gives one
  empty piece.
\<close>

fun split_on :: "char \<Rightarrow> string \<Rightarrow> string list" where
  "split_on c [] = [[]]"
| "split_on c (x # xs) =
     (if x = c then [] # split_on c xs
      else (case split_on c xs of [] \<Rightarrow> [[x]] | w # ws \<Rightarrow> (x # w) # ws))"

text \<open>
  The process-wide ignore list, read from \<open>os.environ\<close> when the module is imported.
\<close>

definition distributed_strategy_ignore_modules :: "(string \<rightharpoonup> string) \<Rightarrow> string list" where
  "distributed_strategy_ignore_modules environ =
     (case environ ''DISTRIBUTED_STRATEGY_IGNORE_MODULES'' of
        Some v \<Rightarrow> split_on CHR '','' v
      | None \<Rightarrow> [])"

text \<open>
  \<open>__should_distribute\<close>, on the ignore list \<open>ign\<close>.
\<close>

definition should_distribute :: "string list \<Rightarrow> string \<Rightarrow> bool" where
  "should_distribute ign module_name = (module_name \<notin> set ign)"

text \<open>
  The two public entry points. The abstract methods \<open>_distribute_module\<close> and
  \<open>_distribute_layer\<close> of the strategy at hand are the parameters \<open>impl\<close>; a method
  returns a module, or Python's \<open>None\<close>, or raises. The optional \<open>model\<close> tag is
  \<open>None\<close> when absent. The diagnostic \<open>print\<close> calls do not influence any returned
  value and are left out throughout.
\<close>

type_synonym 'm place_module = "'m \<Rightarrow> bool \<Rightarrow> string option \<Rightarrow> py_error + 'm option"
type_synonym 'm place_layer = "'m \<Rightarrow> int \<Rightarrow> string option \<Rightarrow> py_error + 'm option"

definition distribute_module ::
  "string list \<Rightarrow> nn_module place_module \<Rightarrow> nn_module \<Rightarrow> bool \<Rightarrow> string option
     \<Rightarrow> py_error + nn_module option" where
  "distribute_module ign impl m final_layers model =
     (let module_name = type_name m in
      if should_distribute ign module_name then impl m final_layers model
      else Inr (Some m))"

definition distribute_layer ::
  "string list \<Rightarrow> nn_module place_layer \<Rightarrow> nn_module \<Rightarrow> int \<Rightarrow> string option
     \<Rightarrow> py_error + nn_module option" where
  "distribute_layer ign impl block layer model =
     (let block_name = type_name block in
      if should_distribute ign block_name then impl block layer model
      else Inr (Some block))"

subsection \<open>The strategy that does not distribute\<close>

definition NotDistributed_distribute_module :: "nn_module place_module" where
  "NotDistributed_distribute_module m final_layers model = Inr (Some m)"

definition NotDistributed_distribute_layer :: "nn_module place_layer" where
  "NotDistributed_distribute_layer block layer model = Inr (Some block)"

section \<open>Weight pattern classifier\<close>

text \<open>
  The patterns of \<open>generate_layer_plan\<close> use three constructs of Python's regular
  expressions: literal text (an escaped dot is a literal dot), alternation and
  concatenation. \<open>rests p s\<close> lists what remains of \<open>s\<close> after each way of matching
  \<open>p\<close> against a prefix of it, and \<open>re.fullmatch\<close> succeeds when some match consumes
  all of \<open>s\<close>.
\<close>

datatype regex = Lit string | Alt regex regex | Seq regex regex

fun strip_prefix :: "string \<Rightarrow> string \<Rightarrow> string option" where
  "strip_prefix [] s = Some s"
| "strip_prefix (c # w) [] = None"
| "strip_prefix (c # w) (d # s) = (if c = d then strip_prefix w s else None)"

fun rests :: "regex \<Rightarrow> string \<Rightarrow> string list" where
  "rests (Lit w) s = (case strip_prefix w s of None \<Rightarrow> [] | Some t \<Rightarrow> [t])"
| "rests (Alt p q) s = rests p s @ rests q s"
| "rests (Seq p q) s = concat (map (rests q) (rests p s))"

definition fullmatch :: "regex \<Rightarrow> string \<Rightarrow> bool" where
  "fullmatch p s = ([] \<in> set (rests p s))"

text \<open>
  The two pattern lists, in the order of the source:
  \<^verbatim>\<open>attn\.in_proj\.qkv_fused\<close>, \<^verbatim>\<open>attn\.in_proj\.(query|key|value)\<close>,
  \<^verbatim>\<open>ff_sub_layer\.wg1_fused\<close>, \<^verbatim>\<open>ff_sub_layer\.w1\<close>, \<^verbatim>\<open>ff_sub_layer\.wg\<close>
  and \<^verbatim>\<open>attn\.dense\<close>, \<^verbatim>\<open>ff_sub_layer\.w2\<close>.
\<close>

definition colwise_patterns :: "regex list" where
  "colwise_patterns =
     [Lit ''attn.in_proj.qkv_fused'',
      Seq (Lit ''attn.in_proj.'') (Alt (Lit ''query'') (Alt (Lit ''key'') (Lit ''value''))),
      Lit ''ff_sub_layer.wg1_fused'',
      Lit ''ff_sub_layer.w1'',
      Lit ''ff_sub_layer.wg'']"

definition rowwise_patterns :: "regex list" where
  "rowwise_patterns =
     [Lit ''attn.dense'',
      Lit ''ff_sub_layer.w2'']"

text \<open>
  The parallelisation kinds, with the layout argument the module plans pass
  (\<open>None\<close> when the constructor is called without arguments).
\<close>

datatype placement = Replicate | Shard int

datatype parallel_style =
    ColwiseParallel "placement option"
  | RowwiseParallel "placement option"
  | SequenceParallel

text \<open>
  A plan is a Python dictionary: an association list in insertion order, where a store
  under a key already present replaces the value in place.
\<close>

type_synonym tp_plan = "(string \<times> parallel_style) list"

text \<open>
  One scan \<open>for pattern in patterns: if re.fullmatch(pattern, name): tp_plan[name] = kind;
  break\<close>.
\<close>

fun scan_patterns :: "regex list \<Rightarrow> string \<Rightarrow> parallel_style \<Rightarrow> tp_plan \<Rightarrow> tp_plan" where
  "scan_patterns [] name kind plan = plan"
| "scan_patterns (pattern # patterns) name kind plan =
     (if fullmatch pattern name then AList.update name kind plan
      else scan_patterns patterns name kind plan)"

text \<open>
  The body of the loop over \<open>block.named_modules()\<close>, for the pattern lists in scope.
\<close>

definition plan_step ::
  "regex list \<Rightarrow> regex list \<Rightarrow> bool \<Rightarrow> string \<times> submodule \<Rightarrow> tp_plan \<Rightarrow> tp_plan" where
  "plan_step colwise rowwise use_sp nm plan =
     (case nm of (name, sub) \<Rightarrow>
        if use_sp \<and> (is_LayerNorm sub \<or> is_Dropout sub \<or> is_LayerNormParameterized sub)
        then AList.update name SequenceParallel plan
        else if is_Linear sub
        then scan_patterns rowwise name (RowwiseParallel None)
               (scan_patterns colwise name (ColwiseParallel None) plan)
        else plan)"

definition plan_loop ::
  "regex list \<Rightarrow> regex list \<Rightarrow> bool \<Rightarrow> (string \<times> submodule) list \<Rightarrow> tp_plan \<Rightarrow> tp_plan" where
  "plan_loop colwise rowwise use_sp mods plan = fold (plan_step colwise rowwise use_sp) mods plan"

definition generate_layer_plan :: "nn_module \<Rightarrow> bool \<Rightarrow> tp_plan" where
  "generate_layer_plan block use_sp =
     plan_loop colwise_patterns rowwise_patterns use_sp (named_modules block) []"

section \<open>Tensor-parallel strategy\<close>

text \<open>
  A device mesh with its shape; \<open>size()\<close> is the number of its ranks.
\<close>

record device_mesh =
  mesh_device_type :: string
  mesh_shape :: "int list"

definition mesh_size :: "device_mesh \<Rightarrow> int" where
  "mesh_size mesh = prod_list (mesh_shape mesh)"

record 'g TensorParallelStrategy = DistributedStrategy +
  group :: 'g
  use_sequence_parallelism :: bool
  device_mesh :: device_mesh

text \<open>
  What the constructor asks of the process: whether a process group is initialised, the
  default group, the environment variables, whether CUDA is available, the world size
  (a call that may raise) and the creation of a device mesh (a call that may raise).
\<close>

record 'g process_state =
  dist_is_initialized :: bool
  GroupMember_WORLD :: 'g
  os_environ :: "string \<rightharpoonup> string"
  cuda_is_available :: bool
  dist_get_world_size :: "py_error + int"
  init_device_mesh :: "string \<Rightarrow> int list \<Rightarrow> py_error + device_mesh"

text \<open>
  \<open>os.getenv(key, default)\<close> and \<open>str.lower()\<close> on ASCII text.
\<close>

definition getenv :: "(string \<rightharpoonup> string) \<Rightarrow> string \<Rightarrow> string \<Rightarrow> string" where
  "getenv environ key dflt = (case environ key of Some v \<Rightarrow> v | None \<Rightarrow> dflt)"

definition lower_char :: "char \<Rightarrow> char" where
  "lower_char c =
     (if (65::nat) \<le> of_char c \<and> of_char c \<le> (90::nat) then char_of (of_char c + (32::nat))
      else c)"

definition lower :: "string \<Rightarrow> string" where
  "lower s = map lower_char s"

text \<open>
  \<open>TensorParallelStrategy.__init__\<close>. The \<open>assert\<close> statement raises AssertionError
  with its message when the condition is false.
\<close>

definition TensorParallelStrategy_init ::
  "'g process_state \<Rightarrow> 'g option \<Rightarrow> bool \<Rightarrow> py_error + 'g TensorParallelStrategy" where
  "TensorParallelStrategy_init ps grp fm =
     (if \<not> dist_is_initialized ps then Inl (AssertionError ''must initialize a process group'')
      else
        let g = (case grp of Some g' \<Rightarrow> g' | None \<Rightarrow> GroupMember_WORLD ps);
            use_sp = (lower (getenv (os_environ ps) ''USE_SEQUENCE_PARALLELISM'' ''False'') = ''true'');
            device_type = (if cuda_is_available ps then ''cuda'' else ''cpu'')
        in case dist_get_world_size ps of
             Inl e \<Rightarrow> Inl e
           | Inr world \<Rightarrow>
               (case init_device_mesh ps device_type [world] of
                  Inl e \<Rightarrow> Inl e
                | Inr mesh \<Rightarrow>
                    Inr \<lparr>from_meta = fm, group = g, use_sequence_parallelism = use_sp,
                         device_mesh = mesh\<rparr>))"

text \<open>
  The two collaborators the placement methods call, \<open>tp_wrapping.apply_tp\<close> and
  \<open>parallelize_module\<close>, are parameters: each returns a module or raises. A method that
  executes \<open>return f(...)\<close> returns what \<open>f\<close> returned.
\<close>

type_synonym 'g apply_tp_fn = "nn_module \<Rightarrow> 'g \<Rightarrow> py_error + nn_module"
type_synonym parallelize_fn = "nn_module \<Rightarrow> device_mesh \<Rightarrow> tp_plan \<Rightarrow> py_error + nn_module"

definition returned :: "py_error + 'a \<Rightarrow> py_error + 'a option" where
  "returned r = (case r of Inl e \<Rightarrow> Inl e | Inr v \<Rightarrow> Inr (Some v))"

text \<open>
  \<open>not model\<close> holds for \<open>None\<close> and for the empty string.
\<close>

definition not_model :: "string option \<Rightarrow> bool" where
  "not_model model = (case model of None \<Rightarrow> True | Some tag \<Rightarrow> tag = [])"

text \<open>
  \<open>TensorParallelStrategy._distribute_module\<close>. When no branch returns, the method
  ends and the call gives \<open>None\<close>.
\<close>

definition TensorParallelStrategy_distribute_module ::
  "'g apply_tp_fn \<Rightarrow> parallelize_fn \<Rightarrow> 'g TensorParallelStrategy
     \<Rightarrow> nn_module place_module" where
  "TensorParallelStrategy_distribute_module apply_tp parallelize_module self m final_layers model =
     (if not_model model then returned (apply_tp m (group self))
      else if model = Some ''llama'' then
        (if final_layers then
           returned (parallelize_module m (device_mesh self)
             [(''shared.head'', ColwiseParallel (Some Replicate))])
         else
           returned (parallelize_module m (device_mesh self)
             [(''shared.emb'', RowwiseParallel (Some Replicate))]))
      else if model = Some ''granite'' then
        returned (parallelize_module m (device_mesh self)
          [(''head'', ColwiseParallel (Some Replicate)),
           (''base_model.embedding'', RowwiseParallel (Some Replicate))])
      else Inr None)"

text \<open>
  \<open>TensorParallelStrategy._distribute_layer\<close>. The head counts are overwritten on the
  attention object of the block before \<open>parallelize_module\<close> receives the block;
  \<open>block.attn\<close> raises AttributeError on a block without that attribute, and \<open>//\<close>
  raises ZeroDivisionError on a mesh of size zero.
\<close>

definition TensorParallelStrategy_distribute_layer ::
  "'g apply_tp_fn \<Rightarrow> parallelize_fn \<Rightarrow> 'g TensorParallelStrategy
     \<Rightarrow> nn_module place_layer" where
  "TensorParallelStrategy_distribute_layer apply_tp parallelize_module self block layer model =
     (if not_model model then returned (apply_tp block (group self))
      else if model = Some ''llama'' \<or> model = Some ''granite'' then
        (let layer_tp_plan = generate_layer_plan block (use_sequence_parallelism self) in
         case attn block of
           None \<Rightarrow> Inl (AttributeError ''attn'')
         | Some attn_layer \<Rightarrow>
             if mesh_size (device_mesh self) = 0 then Inl ZeroDivisionError
             else
               let attn_layer1 = attn_layer\<lparr>nheads := nheads attn_layer div mesh_size (device_mesh self)\<rparr>;
                   attn_layer2 = attn_layer1\<lparr>kvheads := kvheads attn_layer1 div mesh_size (device_mesh self)\<rparr>
               in returned (parallelize_module (block\<lparr>attn := Some attn_layer2\<rparr>)
                              (device_mesh self) layer_tp_plan))
      else Inl (ValueError (''Unsupported model: '' @ (case model of Some tag \<Rightarrow> tag | None \<Rightarrow> ''None''))))"

section \<open>Example inputs\<close>

text \<open>
  Concrete modules, arguments and process states, on which the theorems below are run.
\<close>

definition linear_sub :: submodule where
  "linear_sub = \<lparr>is_LayerNorm = False, is_Dropout = False, is_LayerNormParameterized = False,
                 is_Linear = True\<rparr>"

definition other_sub :: submodule where
  "other_sub = \<lparr>is_LayerNorm = False, is_Dropout = False, is_LayerNormParameterized = False,
                is_Linear = False\<rparr>"

definition norm_sub :: submodule where
  "norm_sub = \<lparr>is_LayerNorm = True, is_Dropout = False, is_LayerNormParameterized = False,
               is_Linear = False\<rparr>"

definition norm_linear_sub :: submodule where
  "norm_linear_sub = \<lparr>is_LayerNorm = True, is_Dropout = False, is_LayerNormParameterized = False,
               is_Linear = True\<rparr>"

definition example_block :: nn_module where
  "example_block =
     \<lparr>type_name = ''LLaMABlock'',
      attn = Some \<lparr>nheads = 7, kvheads = 3\<rparr>,
      named_modules =
        [([], other_sub), (''ln'', norm_sub), (''attn'', other_sub),
         (''attn.in_proj'', other_sub), (''attn.in_proj.query'', linear_sub),
         (''attn.dense'', linear_sub), (''ff_ln'', norm_sub), (''ff_sub_layer'', other_sub),
         (''ff_sub_layer.w1'', linear_sub), (''ff_sub_layer.a'', other_sub),
         (''ff_sub_layer.w2'', linear_sub)]\<rparr>"

definition sp_block :: nn_module where
  "sp_block =
     \<lparr>type_name = ''LLaMABlock'',
      attn = None,
      named_modules =
        [([], other_sub), (''ln'', norm_sub), (''attn.dense'', norm_linear_sub),
         (''ff_sub_layer.w1'', linear_sub)]\<rparr>"

definition example_mover :: "(nat, string, int, (nat, string, int) py_value list \<times> (string \<times> (nat, string, int) py_value) list) DeviceMover" where
  "example_mover = \<lparr>dm_module = (\<lambda>args kwargs. Inr (args, kwargs)), dm_device = ''cuda:1''\<rparr>"

definition example_args :: "(nat, string, int) py_value list" where
  "example_args = [Tensor 1 ''cpu'', NonTensor 5, Tensor 2 ''cuda:1'']"

definition example_kwargs :: "(string \<times> (nat, string, int) py_value) list" where
  "example_kwargs = [(''mask'', Tensor 3 ''cuda:0''), (''use_cache'', NonTensor 0)]"

definition example_to :: "(nat, string) to_raises" where
  "example_to t d dv =
     (if d = ''meta'' \<and> dv \<noteq> ''meta''
      then Some (NotImplementedError ''Cannot copy out of meta tensor; no data!'')
      else None)"

definition example_environ :: "string \<rightharpoonup> string" where
  "example_environ =
     [''DISTRIBUTED_STRATEGY_IGNORE_MODULES'' \<mapsto> ''Embedding,LLaMABlock'',
      ''USE_SEQUENCE_PARALLELISM'' \<mapsto> ''TRUE'']"

definition example_strategy :: "nat TensorParallelStrategy" where
  "example_strategy =
     \<lparr>from_meta = False, group = 0, use_sequence_parallelism = False,
      device_mesh = \<lparr>mesh_device_type = ''cuda'', mesh_shape = [2]\<rparr>\<rparr>"

definition uninitialized_process :: "nat process_state" where
  "uninitialized_process =
     \<lparr>dist_is_initialized = False, GroupMember_WORLD = 0, os_environ = example_environ,
      cuda_is_available = True,
      dist_get_world_size = Inl (ValueError ''Default process group has not been initialized''),
      init_device_mesh = (\<lambda>device_type shape. Inl (ValueError ''no process group''))\<rparr>"

definition initialized_process :: "nat process_state" where
  "initialized_process =
     \<lparr>dist_is_initialized = True, GroupMember_WORLD = 0, os_environ = example_environ,
      cuda_is_available = True,
      dist_get_world_size = Inr 2,
      init_device_mesh =
        (\<lambda>device_type shape. Inr \<lparr>mesh_device_type = device_type, mesh_shape = shape\<rparr>)\<rparr>"

section \<open>The uniform mapper builds balanced contiguous blocks\<close>

lemma inner_loop_fill:
  "layer_id + n \<le> length tbl \<Longrightarrow>
   inner_loop n dev (tbl, layer_id) =
     Inr (take layer_id tbl @ replicate n dev @ drop (layer_id + n) tbl, layer_id + n)"
proof (induction n arbitrary: tbl layer_id)
  case 0
  then show ?case by simp
next
  case (Suc n)
  have lt: "layer_id < length tbl" using Suc.prems by simp
  have st: "list_store tbl layer_id dev = Inr (tbl[layer_id := dev])"
    using lt by (simp add: list_store_def)
  have len: "Suc layer_id + n \<le> length (tbl[layer_id := dev])" using Suc.prems by simp
  have tk: "take (Suc layer_id) (tbl[layer_id := dev]) = take layer_id tbl @ [dev]"
    using lt by (simp add: take_Suc_conv_app_nth)
  show ?case
    using Suc.IH [OF len] st tk by (simp add: replicate_app_Cons_same)
qed

lemma fill_extra:
  "layer_id + q < length tbl \<Longrightarrow>
   (take layer_id tbl @ replicate q d @ drop (layer_id + q) tbl)[layer_id + q := d] =
     take layer_id tbl @ replicate (Suc q) d @ drop (layer_id + Suc q) tbl"
  by (simp add: list_update_append replicate_app_Cons_same upd_conv_take_nth_drop Cons_nth_drop_Suc)

lemma take_fill:
  "layer_id + n \<le> length tbl \<Longrightarrow>
   take (layer_id + n) (take layer_id tbl @ replicate n d @ drop (layer_id + n) tbl) =
     take layer_id tbl @ replicate n d"
  by simp

lemma drop_fill:
  "layer_id + n \<le> length tbl \<Longrightarrow>
   drop (layer_id + n + m) (take layer_id tbl @ replicate n d @ drop (layer_id + n) tbl) =
     drop (layer_id + n + m) tbl"
  by (simp add: add.commute)

lemma outer_loop_fill:
  "layer_id + length (blocks devices q r ks) \<le> length tbl \<Longrightarrow>
   \<exists>rem'. outer_loop devices (int q) ks (tbl, layer_id, int r) =
     Inr (take layer_id tbl @ blocks devices q r ks
            @ drop (layer_id + length (blocks devices q r ks)) tbl,
          layer_id + length (blocks devices q r ks), rem')"
proof (induction ks arbitrary: tbl layer_id r)
  case Nil
  then show ?case by simp
next
  case (Cons k ks)
  let ?d = "devices ! k"
  let ?B = "blocks devices q (r - 1) ks"
  have l1: "layer_id + q \<le> length tbl" using Cons.prems by simp
  note in1 = inner_loop_fill [OF l1, of ?d]
  let ?t1 = "take layer_id tbl @ replicate q ?d @ drop (layer_id + q) tbl"
  show ?case
  proof (cases "0 < r")
    case True
    have lt: "layer_id + q < length ?t1" using Cons.prems True by simp
    have st: "list_store ?t1 (layer_id + q) ?d = Inr (?t1[layer_id + q := ?d])"
      using lt by (simp add: list_store_def)
    let ?t2 = "take layer_id tbl @ replicate (Suc q) ?d @ drop (layer_id + Suc q) tbl"
    have st': "list_store ?t1 (layer_id + q) ?d = Inr ?t2"
      using st fill_extra [of layer_id q tbl ?d] lt by simp
    have l2: "layer_id + Suc q \<le> length tbl" using lt by simp
    have len: "(layer_id + Suc q) + length ?B \<le> length ?t2"
      using Cons.prems True by simp
    from Cons.IH [OF len] obtain rem' where
      "outer_loop devices (int q) ks (?t2, layer_id + Suc q, int (r - 1)) =
        Inr (take (layer_id + Suc q) ?t2 @ ?B
            @ drop (layer_id + Suc q + length ?B) ?t2,
          layer_id + Suc q + length ?B, rem')" by blast
    then have "outer_loop devices (int q) ks (?t2, Suc (layer_id + q), int r - 1) =
        Inr (take layer_id tbl @ replicate (Suc q) ?d @ ?B
            @ drop (layer_id + Suc q + length ?B) tbl,
          layer_id + Suc q + length ?B, rem')"
      using take_fill [OF l2, of ?d] drop_fill [OF l2, of "length ?B" ?d] True
      by (simp add: of_nat_diff)
    then show ?thesis using in1 st' True by (simp add: add.assoc)
  next
    case False
    then have r0: "r = 0" by simp
    have len: "(layer_id + q) + length (blocks devices q 0 ks) \<le> length ?t1"
      using Cons.prems r0 by simp
    from Cons.IH [OF len] obtain rem' where
      "outer_loop devices (int q) ks (?t1, layer_id + q, int 0) =
        Inr (take (layer_id + q) ?t1 @ blocks devices q 0 ks
            @ drop (layer_id + q + length (blocks devices q 0 ks)) ?t1,
          layer_id + q + length (blocks devices q 0 ks), rem')" by blast
    then show ?thesis
      using in1 r0 take_fill [OF l1, of ?d] drop_fill [OF l1, of "length (blocks devices q 0 ks)" ?d]
      by (simp add: add.assoc)
  qed
qed

lemma length_blocks: "length (blocks devices q r ks) = length ks * q + min r (length ks)"
  by (induction ks arbitrary: r) auto

lemma blocks_upt:
  "blocks devices q r [k..<D] =
     concat (map (\<lambda>j. replicate (q + (if j < k + r then 1 else 0)) (devices ! j)) [k..<D])"
proof (induction "D - k" arbitrary: k r)
  case 0
  then show ?case by simp
next
  case (Suc m)
  then have kD: "k < D" and m: "m = D - Suc k" by simp_all
  let ?f = "\<lambda>b j. replicate (q + (if j < b then 1 else 0)) (devices ! j)"
  have rest: "map (?f (Suc k + (r - 1))) [Suc k..<D] = map (?f (k + r)) [Suc k..<D]"
    by (rule map_cong) auto
  have "blocks devices q r [k..<D] = ?f (k + r) k @ blocks devices q (r - 1) [Suc k..<D]"
    using kD by (simp add: upt_conv_Cons)
  also have "blocks devices q (r - 1) [Suc k..<D] = concat (map (?f (Suc k + (r - 1))) [Suc k..<D])"
    by (rule Suc.hyps(1) [OF m])
  also have "\<dots> = concat (map (?f (k + r)) [Suc k..<D])"
    by (simp only: rest)
  finally show ?case
    using kD by (simp add: upt_conv_Cons)
qed

lemma count_list_replicate_self: "count_list (replicate n x) y = (if x = y then n else 0)"
  by (induction n) auto

lemma count_list_concat_replicate:
  "count_list (concat (map (\<lambda>j. replicate (c j) (f j)) js)) x =
     sum_list (map (\<lambda>j. if f j = x then c j else 0) js)"
  by (induction js) (auto simp: count_list_append count_list_replicate_self)

lemma sum_list_single:
  "k < D \<Longrightarrow> sum_list (map (\<lambda>j. if j = k then c j else 0) [0..<D]) = (c k :: nat)"
  by (simp add: interv_sum_list_conv_sum_set_nat)

lemma count_blocks_distinct:
  assumes "distinct devices" "k < length devices"
  shows "count_list (concat (map (\<lambda>j. replicate (c j) (devices ! j)) [0..<length devices]))
           (devices ! k) = c k"
proof -
  have meq: "map (\<lambda>j. if devices ! j = devices ! k then c j else 0) [0..<length devices]
      = map (\<lambda>j. if j = k then c j else 0) [0..<length devices]"
    using assms by (intro map_cong) (auto simp: nth_eq_iff_index_eq)
  have "count_list (concat (map (\<lambda>j. replicate (c j) (devices ! j)) [0..<length devices]))
           (devices ! k)
        = sum_list (map (\<lambda>j. if devices ! j = devices ! k then c j else 0) [0..<length devices])"
    by (rule count_list_concat_replicate)
  also have "\<dots> = sum_list (map (\<lambda>j. if j = k then c j else 0) [0..<length devices])"
    by (simp only: meq)
  also have "\<dots> = c k"
    by (rule sum_list_single [OF assms(2)])
  finally show ?thesis .
qed

lemma uniform_init_blocks:
  assumes "devices \<noteq> []" "0 \<le> L"
  shows "UniformModelParallelStrategy_init devices L fm =
     Inr \<lparr>from_meta = fm, layer_to_device =
       concat (map (\<lambda>k. replicate (nat L div length devices
                                     + (if k < nat L mod length devices then 1 else 0))
                               (devices ! k)) [0..<length devices])\<rparr>"
proof -
  let ?D = "length devices"
  let ?n = "nat L"
  let ?q = "?n div ?D"
  let ?r = "?n mod ?D"
  let ?B = "blocks devices ?q ?r [0..<?D]"
  have D: "0 < ?D" using assms(1) by simp
  have L: "L = int ?n" using assms(2) by simp
  have q: "L div int ?D = int ?q" by (subst L) (simp only: zdiv_int)
  have r: "L - int ?q * int ?D = int ?r"
    by (subst L) (simp add: algebra_simps minus_div_mult_eq_mod [symmetric] of_nat_mod of_nat_div)
  have lenB: "length ?B = ?n"
    using D by (simp add: length_blocks)
  have pre: "0 + length ?B \<le> length (replicate ?n (0::int))" using lenB by simp
  from outer_loop_fill [OF pre] obtain rem' where
    "outer_loop devices (int ?q) [0..<?D] (replicate ?n 0, 0, int ?r) = Inr (?B, ?n, rem')"
    using lenB by auto
  then show ?thesis
    using D q r by (simp add: UniformModelParallelStrategy_init_def blocks_upt)
qed

text \<open>
  Claim C1. For a device list of length \<open>D \<ge> 1\<close> and a layer count \<open>L \<ge> 0\<close> the
  constructor of the uniform mapper returns a strategy whose table has exactly \<open>L\<close>
  entries, each of them a member of the device list; the table is the concatenation, in
  device order, of one block per device, the block of device \<open>k\<close> holding
  \<open>L div D + 1\<close> entries when \<open>k < L mod D\<close> and \<open>L div D\<close> entries otherwise. When the
  devices of the list are pairwise different the number of layers of each device is that
  block length, and the numbers of any two devices differ by at most one.
\<close>

theorem uniform_init_table:
  assumes "devices \<noteq> []" and "0 \<le> L"
  shows "\<exists>s. UniformModelParallelStrategy_init devices L fm = Inr s
     \<and> length (layer_to_device s) = nat L
     \<and> set (layer_to_device s) \<subseteq> set devices
     \<and> layer_to_device s =
           concat (map (\<lambda>k. replicate (nat L div length devices
                                         + (if k < nat L mod length devices then 1 else 0))
                                   (devices ! k)) [0..<length devices])
     \<and> (distinct devices \<longrightarrow>
           (\<forall>k < length devices. count_list (layer_to_device s) (devices ! k) =
               nat L div length devices + (if k < nat L mod length devices then 1 else 0))
         \<and> (\<forall>j < length devices. \<forall>k < length devices.
               count_list (layer_to_device s) (devices ! j)
                 \<le> count_list (layer_to_device s) (devices ! k) + 1))"
proof -
  let ?D = "length devices"
  let ?c = "\<lambda>k. nat L div ?D + (if k < nat L mod ?D then 1 else 0)"
  let ?t = "concat (map (\<lambda>k. replicate (?c k) (devices ! k)) [0..<?D])"
  have D: "0 < ?D" using assms(1) by simp
  have eq: "UniformModelParallelStrategy_init devices L fm
              = Inr \<lparr>from_meta = fm, layer_to_device = ?t\<rparr>"
    by (rule uniform_init_blocks [OF assms])
  have "?t = blocks devices (nat L div ?D) (nat L mod ?D) [0..<?D]"
    by (simp add: blocks_upt)
  then have len: "length ?t = nat L"
    using D by (simp only: length_blocks) simp
  have sub: "set ?t \<subseteq> set devices" by auto
  have cnt: "\<forall>k < ?D. count_list ?t (devices ! k) = ?c k" if "distinct devices"
    using count_blocks_distinct [OF that, of _ ?c] by blast
  have diff: "\<forall>j < ?D. \<forall>k < ?D. count_list ?t (devices ! j) \<le> count_list ?t (devices ! k) + 1"
    if "distinct devices"
    using cnt [OF that] by simp
  show ?thesis
    using eq len sub cnt diff by simp
qed

theorem uniform_init_table_witness:
  "[0, 1, 2] \<noteq> ([] :: int list) \<and> (0::int) \<le> 8
   \<and> (\<exists>s. UniformModelParallelStrategy_init [0, 1, 2] 8 False = Inr s
        \<and> layer_to_device s = [0, 0, 0, 1, 1, 1, 2, 2]
        \<and> map (count_list (layer_to_device s)) [0, 1, 2] = [3, 3, 2])"
proof -
  have h1: "[0, 1, 2] \<noteq> ([] :: int list)" by simp
  have h2: "(0::int) \<le> 8" by simp
  from uniform_init_table [OF h1 h2, of False] obtain s where
    s: "UniformModelParallelStrategy_init [0, 1, 2] 8 False = Inr s" and
    tbl: "layer_to_device s =
           concat (map (\<lambda>k. replicate (nat 8 div length [0, 1, 2 :: int]
                                         + (if k < nat 8 mod length [0, 1, 2 :: int] then 1 else 0))
                                   ([0, 1, 2] ! k)) [0..<length [0, 1, 2 :: int]])"
    by blast
  have "concat (map (\<lambda>k. replicate (nat 8 div length [0, 1, 2 :: int]
                                         + (if k < nat 8 mod length [0, 1, 2 :: int] then 1 else 0))
                                   ([0, 1, 2] ! k)) [0..<length [0, 1, 2 :: int]])
          = [0, 0, 0, 1, 1, 1, 2, 2 :: int]"
    by code_simp
  with tbl have "layer_to_device s = [0, 0, 0, 1, 1, 1, 2, 2]" by simp
  with s h1 h2 show ?thesis by simp
qed

section \<open>The plans of the weight pattern classifier\<close>

lemma map_of_scan_patterns:
  "map_of (scan_patterns ps n k plan) =
     (if \<exists>p\<in>set ps. fullmatch p n then (map_of plan)(n \<mapsto> k) else map_of plan)"
  by (induction ps) (auto simp: update_conv')

lemma map_of_plan_step_other:
  "x \<noteq> n \<Longrightarrow> map_of (plan_step col row sp (n, sub) plan) x = map_of plan x"
  by (simp add: plan_step_def map_of_scan_patterns update_conv')

lemma map_of_plan_step_same:
  "map_of (plan_step col row sp (n, sub) plan) n =
     (if sp \<and> (is_LayerNorm sub \<or> is_Dropout sub \<or> is_LayerNormParameterized sub)
      then Some SequenceParallel
      else if is_Linear sub \<and> (\<exists>p\<in>set row. fullmatch p n) then Some (RowwiseParallel None)
      else if is_Linear sub \<and> (\<exists>p\<in>set col. fullmatch p n) then Some (ColwiseParallel None)
      else map_of plan n)"
  by (auto simp: plan_step_def map_of_scan_patterns update_conv')

lemma plan_loop_Cons:
  "plan_loop col row sp (nm # mods) plan = plan_loop col row sp mods (plan_step col row sp nm plan)"
  by (simp add: plan_loop_def)

lemma plan_loop_absent:
  "x \<notin> fst ` set mods \<Longrightarrow> map_of (plan_loop col row sp mods plan) x = map_of plan x"
proof (induction mods arbitrary: plan)
  case Nil
  then show ?case by (simp add: plan_loop_def)
next
  case (Cons nm mods)
  obtain n sub where nm: "nm = (n, sub)" by (cases nm)
  with Cons.prems have "x \<noteq> n" "x \<notin> fst ` set mods" by auto
  then show ?case
    using Cons.IH [of "plan_step col row sp nm plan"] nm
    by (simp add: plan_loop_Cons map_of_plan_step_other)
qed

lemma plan_loop_present:
  assumes "distinct (map fst mods)" "(n, sub) \<in> set mods"
  shows "map_of (plan_loop col row sp mods plan) n = map_of (plan_step col row sp (n, sub) plan) n"
  using assms
proof (induction mods arbitrary: plan)
  case Nil
  then show ?case by simp
next
  case (Cons nm mods)
  show ?case
  proof (cases "nm = (n, sub)")
    case True
    with Cons.prems(1) have "n \<notin> fst ` set mods" by auto
    then show ?thesis
      using True by (simp add: plan_loop_Cons plan_loop_absent)
  next
    case False
    with Cons.prems have mem: "(n, sub) \<in> set mods" and d: "distinct (map fst mods)" by auto
    obtain n' sub' where nm: "nm = (n', sub')" by (cases nm)
    from mem Cons.prems(1) nm have ne: "n \<noteq> n'" by force
    have "map_of (plan_loop col row sp mods (plan_step col row sp nm plan)) n
            = map_of (plan_step col row sp (n, sub) (plan_step col row sp nm plan)) n"
      by (rule Cons.IH [OF d mem])
    also have "\<dots> = map_of (plan_step col row sp (n, sub) plan) n"
    proof -
      have "map_of (plan_step col row sp nm plan) n = map_of plan n"
        unfolding nm by (rule map_of_plan_step_other [OF ne])
      then show ?thesis by (simp only: map_of_plan_step_same)
    qed
    finally show ?thesis by (simp add: plan_loop_Cons)
  qed
qed

lemma plan_loop_unmatched:
  assumes "\<not> (\<exists>p\<in>set col. fullmatch p x)" "\<not> (\<exists>p\<in>set row. fullmatch p x)"
  shows "map_of (plan_loop col row False mods plan) x = map_of plan x"
proof (induction mods arbitrary: plan)
  case Nil
  then show ?case by (simp add: plan_loop_def)
next
  case (Cons nm mods)
  obtain n sub where nm: "nm = (n, sub)" by (cases nm)
  have "map_of (plan_step col row False (n, sub) plan) x = map_of plan x"
    using assms by (cases "x = n") (auto simp: map_of_plan_step_same map_of_plan_step_other)
  then show ?case
    using Cons.IH [of "plan_step col row False nm plan"] nm by (simp add: plan_loop_Cons)
qed

lemma plan_loop_keeps_kind_off:
  assumes "(\<exists>p\<in>set row. fullmatch p n) \<or> (\<exists>p\<in>set col. fullmatch p n)"
    and "map_of plan n =
           Some (if \<exists>p\<in>set row. fullmatch p n then RowwiseParallel None else ColwiseParallel None)"
  shows "map_of (plan_loop col row False mods plan) n =
           Some (if \<exists>p\<in>set row. fullmatch p n then RowwiseParallel None else ColwiseParallel None)"
  using assms(2)
proof (induction mods arbitrary: plan)
  case Nil
  then show ?case by (simp add: plan_loop_def)
next
  case (Cons nm mods)
  obtain n' sub' where nm: "nm = (n', sub')" by (cases nm)
  have "map_of (plan_step col row False nm plan) n =
          Some (if \<exists>p\<in>set row. fullmatch p n then RowwiseParallel None else ColwiseParallel None)"
    unfolding nm using Cons.prems assms(1)
    by (cases "n = n'") (auto simp: map_of_plan_step_same map_of_plan_step_other)
  then show ?case
    using Cons.IH by (simp add: plan_loop_Cons)
qed

lemma plan_loop_kind_off:
  assumes "(n, sub) \<in> set mods" "is_Linear sub"
    and "(\<exists>p\<in>set row. fullmatch p n) \<or> (\<exists>p\<in>set col. fullmatch p n)"
  shows "map_of (plan_loop col row False mods plan) n =
           Some (if \<exists>p\<in>set row. fullmatch p n then RowwiseParallel None else ColwiseParallel None)"
  using assms(1)
proof (induction mods arbitrary: plan)
  case Nil
  then show ?case by simp
next
  case (Cons nm mods)
  show ?case
  proof (cases "nm = (n, sub)")
    case True
    have "map_of (plan_step col row False nm plan) n =
            Some (if \<exists>p\<in>set row. fullmatch p n then RowwiseParallel None else ColwiseParallel None)"
      unfolding True using assms(2,3) by (auto simp: map_of_plan_step_same)
    then show ?thesis
      using plan_loop_keeps_kind_off [OF assms(3)] by (simp add: plan_loop_Cons)
  next
    case False
    with Cons.prems have "(n, sub) \<in> set mods" by simp
    then show ?thesis using Cons.IH by (simp add: plan_loop_Cons)
  qed
qed

lemma strip_prefix_Some: "strip_prefix w s = Some t \<longleftrightarrow> s = w @ t"
  by (induction w s rule: strip_prefix.induct) auto

lemma rests_Lit: "t \<in> set (rests (Lit w) s) \<longleftrightarrow> s = w @ t"
proof (cases "strip_prefix w s")
  case None
  then have "s \<noteq> w @ t" using strip_prefix_Some [of w s t] by simp
  with None show ?thesis by simp
next
  case (Some x)
  then have "s = w @ x" by (simp add: strip_prefix_Some)
  with Some show ?thesis by auto
qed

lemma fullmatch_Lit: "fullmatch (Lit w) s \<longleftrightarrow> s = w"
  by (simp add: fullmatch_def rests_Lit del: rests.simps)

lemma fullmatch_Alt: "fullmatch (Alt p q) s \<longleftrightarrow> fullmatch p s \<or> fullmatch q s"
  by (auto simp: fullmatch_def)

lemma fullmatch_Seq_Lit:
  "fullmatch (Seq (Lit w) p) s \<longleftrightarrow> (\<exists>t. s = w @ t \<and> fullmatch p t)"
proof -
  have "fullmatch (Seq (Lit w) p) s \<longleftrightarrow> (\<exists>t \<in> set (rests (Lit w) s). [] \<in> set (rests p t))"
    by (simp add: fullmatch_def del: rests.simps(1)) 
  also have "\<dots> \<longleftrightarrow> (\<exists>t. s = w @ t \<and> fullmatch p t)"
    by (auto simp: rests_Lit fullmatch_def simp del: rests.simps)
  finally show ?thesis .
qed

lemma colwise_match_iff:
  "(\<exists>p\<in>set colwise_patterns. fullmatch p n) \<longleftrightarrow>
     n \<in> {''attn.in_proj.qkv_fused'', ''attn.in_proj.query'', ''attn.in_proj.key'',
          ''attn.in_proj.value'', ''ff_sub_layer.wg1_fused'', ''ff_sub_layer.w1'',
          ''ff_sub_layer.wg''}"
proof -
  have "(\<exists>p\<in>set colwise_patterns. fullmatch p n) \<longleftrightarrow>
     n = ''attn.in_proj.qkv_fused'' \<or>
     (\<exists>t. n = ''attn.in_proj.'' @ t \<and> (t = ''query'' \<or> t = ''key'' \<or> t = ''value'')) \<or>
     n = ''ff_sub_layer.wg1_fused'' \<or> n = ''ff_sub_layer.w1'' \<or> n = ''ff_sub_layer.wg''"
    unfolding colwise_patterns_def
    by (simp only: list.set bex_simps insert_iff empty_iff fullmatch_Lit fullmatch_Alt fullmatch_Seq_Lit
          simp_thms ex_disj_distrib conj_disj_distribL)
  also have "\<dots> \<longleftrightarrow> n \<in> {''attn.in_proj.qkv_fused'', ''attn.in_proj.query'', ''attn.in_proj.key'',
          ''attn.in_proj.value'', ''ff_sub_layer.wg1_fused'', ''ff_sub_layer.w1'',
          ''ff_sub_layer.wg''}"
    by (simp only: insert_iff empty_iff) (simp add: conj_disj_distribL ex_disj_distrib)
  finally show ?thesis .
qed

lemma rowwise_match_iff:
  "(\<exists>p\<in>set rowwise_patterns. fullmatch p n) \<longleftrightarrow> n \<in> {''attn.dense'', ''ff_sub_layer.w2''}"
  unfolding rowwise_patterns_def
  by (simp only: list.set bex_simps insert_iff empty_iff fullmatch_Lit simp_thms)

lemma patterns_exclusive:
  "\<not> ((\<exists>p\<in>set colwise_patterns. fullmatch p n) \<and> (\<exists>p\<in>set rowwise_patterns. fullmatch p n))"
  unfolding colwise_match_iff rowwise_match_iff by auto

text \<open>
  Claim C2. With sequence parallelism off, for a block whose linear sub-modules include
  \<open>attn.in_proj.query\<close>, \<open>attn.dense\<close>, \<open>ff_sub_layer.w1\<close> and \<open>ff_sub_layer.w2\<close>,
  the plan maps the first and the third to column sharding and the second and the fourth
  to row sharding, and it has no entry under a name that matches neither pattern list.
\<close>

theorem generate_layer_plan_sp_off:
  assumes "(''attn.in_proj.query'', q) \<in> set (named_modules block)" "is_Linear q"
    and "(''attn.dense'', d) \<in> set (named_modules block)" "is_Linear d"
    and "(''ff_sub_layer.w1'', w1) \<in> set (named_modules block)" "is_Linear w1"
    and "(''ff_sub_layer.w2'', w2) \<in> set (named_modules block)" "is_Linear w2"
  shows "map_of (generate_layer_plan block False) ''attn.in_proj.query'' = Some (ColwiseParallel None)
     \<and> map_of (generate_layer_plan block False) ''attn.dense'' = Some (RowwiseParallel None)
     \<and> map_of (generate_layer_plan block False) ''ff_sub_layer.w1'' = Some (ColwiseParallel None)
     \<and> map_of (generate_layer_plan block False) ''ff_sub_layer.w2'' = Some (RowwiseParallel None)
     \<and> (\<forall>n. \<not> (\<exists>p\<in>set colwise_patterns. fullmatch p n)
              \<and> \<not> (\<exists>p\<in>set rowwise_patterns. fullmatch p n)
            \<longrightarrow> n \<notin> fst ` set (generate_layer_plan block False))"
proof -
  let ?plan = "generate_layer_plan block False"
  have c1: "map_of ?plan ''attn.in_proj.query'' = Some (ColwiseParallel None)"
    unfolding generate_layer_plan_def
    by (subst plan_loop_kind_off [OF assms(1,2)]) (simp_all add: colwise_match_iff rowwise_match_iff)
  have c2: "map_of ?plan ''attn.dense'' = Some (RowwiseParallel None)"
    unfolding generate_layer_plan_def
    by (subst plan_loop_kind_off [OF assms(3,4)]) (simp_all add: colwise_match_iff rowwise_match_iff)
  have c3: "map_of ?plan ''ff_sub_layer.w1'' = Some (ColwiseParallel None)"
    unfolding generate_layer_plan_def
    by (subst plan_loop_kind_off [OF assms(5,6)]) (simp_all add: colwise_match_iff rowwise_match_iff)
  have c4: "map_of ?plan ''ff_sub_layer.w2'' = Some (RowwiseParallel None)"
    unfolding generate_layer_plan_def
    by (subst plan_loop_kind_off [OF assms(7,8)]) (simp_all add: colwise_match_iff rowwise_match_iff)
  have c5: "n \<notin> fst ` set ?plan"
    if "\<not> (\<exists>p\<in>set colwise_patterns. fullmatch p n)"
       "\<not> (\<exists>p\<in>set rowwise_patterns. fullmatch p n)" for n
  proof -
    have "map_of ?plan n = map_of [] n"
      unfolding generate_layer_plan_def by (rule plan_loop_unmatched [OF that])
    then show ?thesis by (simp add: map_of_eq_None_iff)
  qed
  from c1 c2 c3 c4 c5 show ?thesis by blast
qed

theorem generate_layer_plan_sp_off_witness:
  "(''attn.in_proj.query'', linear_sub) \<in> set (named_modules example_block)
   \<and> (''ff_sub_layer.w2'', linear_sub) \<in> set (named_modules example_block)
   \<and> generate_layer_plan example_block False =
        [(''attn.in_proj.query'', ColwiseParallel None), (''attn.dense'', RowwiseParallel None),
         (''ff_sub_layer.w1'', ColwiseParallel None), (''ff_sub_layer.w2'', RowwiseParallel None)]
   \<and> map_of (generate_layer_plan example_block False) ''attn.in_proj.query'' = Some (ColwiseParallel None)
   \<and> map_of (generate_layer_plan example_block False) ''attn.dense'' = Some (RowwiseParallel None)
   \<and> map_of (generate_layer_plan example_block False) ''ff_sub_layer.w1'' = Some (ColwiseParallel None)
   \<and> map_of (generate_layer_plan example_block False) ''ff_sub_layer.w2'' = Some (RowwiseParallel None)
   \<and> ''ln'' \<notin> fst ` set (generate_layer_plan example_block False)"
proof -
  have m1: "(''attn.in_proj.query'', linear_sub) \<in> set (named_modules example_block)"
    and m2: "(''attn.dense'', linear_sub) \<in> set (named_modules example_block)"
    and m3: "(''ff_sub_layer.w1'', linear_sub) \<in> set (named_modules example_block)"
    and m4: "(''ff_sub_layer.w2'', linear_sub) \<in> set (named_modules example_block)"
    by (simp_all add: example_block_def)
  have lin: "is_Linear linear_sub" by (simp add: linear_sub_def)
  have ln: "\<not> (\<exists>p\<in>set colwise_patterns. fullmatch p ''ln'')
          \<and> \<not> (\<exists>p\<in>set rowwise_patterns. fullmatch p ''ln'')"
    by (simp add: colwise_match_iff rowwise_match_iff)
  have run: "generate_layer_plan example_block False =
        [(''attn.in_proj.query'', ColwiseParallel None), (''attn.dense'', RowwiseParallel None),
         (''ff_sub_layer.w1'', ColwiseParallel None), (''ff_sub_layer.w2'', RowwiseParallel None)]"
    by code_simp
  from generate_layer_plan_sp_off [OF m1 lin m2 lin m3 lin m4 lin] ln m1 m4 run
  show ?thesis by blast
qed

text \<open>
  Claim C9. With sequence parallelism on, every sub-module that is a LayerNorm, a Dropout
  or a LayerNormParameterized is in the plan as sequence-parallel, whether or not it is
  also a linear module and whatever the column-wise and row-wise pattern lists are: the
  pattern scans are not applied to it. The names that \<open>named_modules()\<close> yields are
  pairwise different.
\<close>

theorem generate_layer_plan_sp_on:
  assumes "distinct (map fst (named_modules block))"
    and "(n, sub) \<in> set (named_modules block)"
    and "is_LayerNorm sub \<or> is_Dropout sub \<or> is_LayerNormParameterized sub"
  shows "map_of (generate_layer_plan block True) n = Some SequenceParallel
     \<and> (\<forall>colwise rowwise.
           map_of (plan_loop colwise rowwise True (named_modules block) []) n = Some SequenceParallel)"
proof -
  have "map_of (plan_loop colwise rowwise True (named_modules block) []) n = Some SequenceParallel"
    for colwise rowwise
    using assms(3) by (simp add: plan_loop_present [OF assms(1,2)] map_of_plan_step_same)
  then show ?thesis by (simp add: generate_layer_plan_def)
qed

theorem generate_layer_plan_sp_on_witness:
  "distinct (map fst (named_modules sp_block))
   \<and> (''attn.dense'', norm_linear_sub) \<in> set (named_modules sp_block)
   \<and> is_LayerNorm norm_linear_sub \<and> is_Linear norm_linear_sub
   \<and> (\<exists>p\<in>set rowwise_patterns. fullmatch p ''attn.dense'')
   \<and> map_of (generate_layer_plan sp_block True) ''attn.dense'' = Some SequenceParallel"
proof -
  have d: "distinct (map fst (named_modules sp_block))" by (simp add: sp_block_def)
  have m: "(''attn.dense'', norm_linear_sub) \<in> set (named_modules sp_block)"
    by (simp add: sp_block_def)
  have k: "is_LayerNorm norm_linear_sub \<or> is_Dropout norm_linear_sub
             \<or> is_LayerNormParameterized norm_linear_sub"
    by (simp add: norm_linear_sub_def)
  have k': "is_LayerNorm norm_linear_sub \<and> is_Linear norm_linear_sub"
    by (simp add: norm_linear_sub_def)
  have r: "\<exists>p\<in>set rowwise_patterns. fullmatch p ''attn.dense''"
    by (simp add: rowwise_match_iff)
  from generate_layer_plan_sp_on [OF d m k] d m k' r show ?thesis by blast
qed



section \<open>Device mover, ignore list and tensor-parallel placement\<close>

lemma update_fresh: "k \<notin> fst ` set acc \<Longrightarrow> AList.update k v acc = acc @ [(k, v)]"
  by (induction acc) auto

lemma dict_get_member:
  "distinct (map fst d) \<Longrightarrow> (k, v) \<in> set d \<Longrightarrow> dict_get d k = Inr v"
  by (simp add: dict_get_def)

lemma to_device_ok:
  "to_raises t d dv = None \<Longrightarrow> to_device to_raises (Tensor t d) dv = Inr (Tensor t dv)"
  by simp

lemma move_args_ok:
  "\<forall>t d. Tensor t d \<in> set args \<longrightarrow> to_raises t d dv = None \<Longrightarrow>
   move_args to_raises dv args =
     Inr (map (\<lambda>x. case x of Tensor t d \<Rightarrow> Tensor t dv | NonTensor a \<Rightarrow> NonTensor a) args)"
proof (induction args)
  case Nil
  then show ?case by simp
next
  case (Cons arg args)
  then show ?case by (cases arg) simp_all
qed

lemma move_args_fail:
  "\<not> (\<forall>t d. Tensor t d \<in> set args \<longrightarrow> to_raises t d dv = None) \<Longrightarrow>
   \<exists>e t d. Tensor t d \<in> set args \<and> to_raises t d dv = Some e
          \<and> move_args to_raises dv args = Inl e"
proof (induction args)
  case Nil
  then show ?case by simp
next
  case (Cons arg args)
  show ?case
  proof (cases arg)
    case (Tensor t d)
    show ?thesis
    proof (cases "to_raises t d dv")
      case None
      with Cons.prems Tensor
      have "\<not> (\<forall>t d. Tensor t d \<in> set args \<longrightarrow> to_raises t d dv = None)" by auto
      from Cons.IH [OF this] obtain e t' d' where
        "Tensor t' d' \<in> set args" "to_raises t' d' dv = Some e"
        "move_args to_raises dv args = Inl e" by blast
      then show ?thesis using Tensor None by auto
    next
      case (Some e)
      then show ?thesis using Tensor by auto
    qed
  next
    case (NonTensor a)
    with Cons.prems
    have "\<not> (\<forall>t d. Tensor t d \<in> set args \<longrightarrow> to_raises t d dv = None)" by auto
    from Cons.IH [OF this] obtain e t' d' where
      "Tensor t' d' \<in> set args" "to_raises t' d' dv = Some e"
      "move_args to_raises dv args = Inl e" by blast
    then show ?thesis using NonTensor by auto
  qed
qed

lemma move_kwargs_ok:
  assumes "distinct (map fst kwargs)"
  shows "distinct (map fst todo) \<Longrightarrow> set todo \<subseteq> set kwargs \<Longrightarrow>
         fst ` set acc \<inter> fst ` set todo = {} \<Longrightarrow>
         \<forall>t d. Tensor t d \<in> snd ` set todo \<longrightarrow> to_raises t d dv = None \<Longrightarrow>
         move_kwargs to_raises dv kwargs (map fst todo) acc =
           Inr (acc @ map (\<lambda>(k, v). (k, case v of Tensor t d \<Rightarrow> Tensor t dv
                                                | NonTensor a \<Rightarrow> NonTensor a)) todo)"
proof (induction todo arbitrary: acc)
  case Nil
  then show ?case by simp
next
  case (Cons kv todo)
  obtain k v where kv: "kv = (k, v)" by (cases kv)
  let ?v = "case v of Tensor t d \<Rightarrow> Tensor t dv | NonTensor a \<Rightarrow> NonTensor a"
  have get: "dict_get kwargs k = Inr v"
    using Cons.prems(2) kv by (intro dict_get_member [OF assms]) simp
  have mv: "(if isinstance_Tensor v then to_device to_raises v dv else Inr v) = Inr ?v"
    using Cons.prems(4) kv by (cases v) force+
  have fresh: "k \<notin> fst ` set acc" using Cons.prems(3) kv by auto
  have d: "distinct (map fst todo)" and sub: "set todo \<subseteq> set kwargs"
    using Cons.prems(1,2) by simp_all
  have disj: "fst ` set (acc @ [(k, ?v)]) \<inter> fst ` set todo = {}"
    using Cons.prems(1,3) kv by auto
  have ok: "\<forall>t d. Tensor t d \<in> snd ` set todo \<longrightarrow> to_raises t d dv = None"
    using Cons.prems(4) by auto
  show ?case
    using Cons.IH [OF d sub disj ok] get mv kv by (simp add: update_fresh [OF fresh])
qed

lemma move_kwargs_fail:
  assumes "distinct (map fst kwargs)"
  shows "set todo \<subseteq> set kwargs \<Longrightarrow>
         \<not> (\<forall>t d. Tensor t d \<in> snd ` set todo \<longrightarrow> to_raises t d dv = None) \<Longrightarrow>
         \<exists>e t d. Tensor t d \<in> snd ` set todo \<and> to_raises t d dv = Some e
                \<and> move_kwargs to_raises dv kwargs (map fst todo) acc = Inl e"
proof (induction todo arbitrary: acc)
  case Nil
  then show ?case by simp
next
  case (Cons kv todo)
  obtain k v where kv: "kv = (k, v)" by (cases kv)
  have get: "dict_get kwargs k = Inr v"
    using Cons.prems(1) kv by (intro dict_get_member [OF assms]) simp
  have sub: "set todo \<subseteq> set kwargs" using Cons.prems(1) by simp
  have rest: "\<exists>e t d. Tensor t d \<in> snd ` set (kv # todo) \<and> to_raises t d dv = Some e
                \<and> move_kwargs to_raises dv kwargs (map fst todo) acc' = Inl e"
    if "\<not> (\<forall>t d. Tensor t d \<in> snd ` set todo \<longrightarrow> to_raises t d dv = None)" for acc'
  proof -
    from Cons.IH [OF sub that, of acc'] obtain e t d where
      "Tensor t d \<in> snd ` set todo" "to_raises t d dv = Some e"
      "move_kwargs to_raises dv kwargs (map fst todo) acc' = Inl e" by blast
    then show ?thesis by auto
  qed
  show ?case
  proof (cases v)
    case (Tensor t d)
    show ?thesis
    proof (cases "to_raises t d dv")
      case None
      with Cons.prems(2) Tensor kv
      have "\<not> (\<forall>t d. Tensor t d \<in> snd ` set todo \<longrightarrow> to_raises t d dv = None)" by auto
      from rest [OF this] show ?thesis using get kv Tensor None by simp
    next
      case (Some e)
      have "Tensor t d \<in> snd ` set (kv # todo)" using kv Tensor by force
      then show ?thesis using get kv Tensor Some by auto
    qed
  next
    case (NonTensor a)
    with Cons.prems(2) kv
    have "\<not> (\<forall>t d. Tensor t d \<in> snd ` set todo \<longrightarrow> to_raises t d dv = None)" by auto
    from rest [OF this] show ?thesis using get kv NonTensor by simp
  qed
qed


text \<open>
  Claim C3. A call of the device mover, with any positional arguments and any keyword
  dictionary (its keys pairwise different, as in every dictionary), goes one of two ways.
  When no relocation raises, it returns what the wrapped module returns on arguments of
  the same number and under the same keys, where every tensor has been moved to the
  target device with its payload kept and every other argument is the one given; the
  output of the wrapped module is returned as it is. When the relocation of some tensor
  argument raises, the call raises that exception whatever the wrapped module is: the
  module is not reached. The call without arguments is of the first kind.
\<close>

theorem DeviceMover_forward_moves_inputs:
  assumes "distinct (map fst kwargs)"
  shows "((\<forall>t d. Tensor t d \<in> set args \<union> snd ` set kwargs
                 \<longrightarrow> to_raises t d (dm_device self) = None) \<longrightarrow>
          (\<exists>args' kwargs'.
             DeviceMover_forward to_raises self args kwargs = dm_module self args' kwargs'
             \<and> length args' = length args
             \<and> (\<forall>i<length args.
                   case args ! i of
                     Tensor t d \<Rightarrow> args' ! i = Tensor t (dm_device self)
                   | NonTensor a \<Rightarrow> args' ! i = args ! i)
             \<and> map fst kwargs' = map fst kwargs
             \<and> (\<forall>i<length kwargs.
                   case snd (kwargs ! i) of
                     Tensor t d \<Rightarrow> snd (kwargs' ! i) = Tensor t (dm_device self)
                   | NonTensor a \<Rightarrow> snd (kwargs' ! i) = snd (kwargs ! i))))
     \<and> (\<not> (\<forall>t d. Tensor t d \<in> set args \<union> snd ` set kwargs
                   \<longrightarrow> to_raises t d (dm_device self) = None) \<longrightarrow>
          (\<exists>e t d. Tensor t d \<in> set args \<union> snd ` set kwargs
             \<and> to_raises t d (dm_device self) = Some e
             \<and> (\<forall>f. DeviceMover_forward to_raises (self\<lparr>dm_module := f\<rparr>) args kwargs = Inl e)))"
proof (intro conjI impI)
  let ?dv = "dm_device self"
  let ?mv = "\<lambda>x. case x of Tensor t d \<Rightarrow> Tensor t ?dv | NonTensor a \<Rightarrow> NonTensor a"
  let ?args' = "map ?mv args"
  let ?kwargs' = "map (\<lambda>(k, v). (k, ?mv v)) kwargs"
  assume ok: "\<forall>t d. Tensor t d \<in> set args \<union> snd ` set kwargs \<longrightarrow> to_raises t d ?dv = None"
  then have oka: "\<forall>t d. Tensor t d \<in> set args \<longrightarrow> to_raises t d ?dv = None"
    and okk: "\<forall>t d. Tensor t d \<in> snd ` set kwargs \<longrightarrow> to_raises t d ?dv = None"
    by blast+
  have ar: "move_args to_raises ?dv args = Inr ?args'"
    using oka by (rule move_args_ok [of args to_raises ?dv])
  have kw: "move_kwargs to_raises ?dv kwargs (map fst kwargs) [] = Inr ?kwargs'"
    using move_kwargs_ok [OF assms assms, of "[]" to_raises ?dv] okk by simp
  have run: "DeviceMover_forward to_raises self args kwargs = dm_module self ?args' ?kwargs'"
    by (simp add: DeviceMover_forward_def Let_def ar kw)
  have a: "\<forall>i<length args.
           case args ! i of
             Tensor t d \<Rightarrow> ?args' ! i = Tensor t ?dv
           | NonTensor a \<Rightarrow> ?args' ! i = args ! i"
    by (simp split: py_value.splits)
  have keys: "map fst ?kwargs' = map fst kwargs" by (simp add: case_prod_unfold comp_def)
  have b: "\<forall>i<length kwargs.
           case snd (kwargs ! i) of
             Tensor t d \<Rightarrow> snd (?kwargs' ! i) = Tensor t ?dv
           | NonTensor a \<Rightarrow> snd (?kwargs' ! i) = snd (kwargs ! i)"
    by (simp add: case_prod_unfold split: py_value.splits)
  from run a keys b
  show "\<exists>args' kwargs'.
             DeviceMover_forward to_raises self args kwargs = dm_module self args' kwargs'
             \<and> length args' = length args
             \<and> (\<forall>i<length args.
                   case args ! i of
                     Tensor t d \<Rightarrow> args' ! i = Tensor t (dm_device self)
                   | NonTensor a \<Rightarrow> args' ! i = args ! i)
             \<and> map fst kwargs' = map fst kwargs
             \<and> (\<forall>i<length kwargs.
                   case snd (kwargs ! i) of
                     Tensor t d \<Rightarrow> snd (kwargs' ! i) = Tensor t (dm_device self)
                   | NonTensor a \<Rightarrow> snd (kwargs' ! i) = snd (kwargs ! i))"
    by (intro exI [of _ ?args'] exI [of _ ?kwargs']) simp
next
  let ?dv = "dm_device self"
  assume bad: "\<not> (\<forall>t d. Tensor t d \<in> set args \<union> snd ` set kwargs \<longrightarrow> to_raises t d ?dv = None)"
  show "\<exists>e t d. Tensor t d \<in> set args \<union> snd ` set kwargs
             \<and> to_raises t d ?dv = Some e
             \<and> (\<forall>f. DeviceMover_forward to_raises (self\<lparr>dm_module := f\<rparr>) args kwargs = Inl e)"
  proof (cases "\<forall>t d. Tensor t d \<in> set args \<longrightarrow> to_raises t d ?dv = None")
    case False
    from move_args_fail [of args to_raises ?dv] False obtain e t d where
      "Tensor t d \<in> set args" "to_raises t d ?dv = Some e"
      "move_args to_raises ?dv args = Inl e" by blast
    then show ?thesis
      by (intro exI [of _ e] exI [of _ t] exI [of _ d]) (simp add: DeviceMover_forward_def)
  next
    case True
    with bad have "\<not> (\<forall>t d. Tensor t d \<in> snd ` set kwargs \<longrightarrow> to_raises t d ?dv = None)"
      by blast
    from move_kwargs_fail [OF assms subset_refl, of to_raises ?dv "[]"] this obtain e t d where
      "Tensor t d \<in> snd ` set kwargs" "to_raises t d ?dv = Some e"
      "move_kwargs to_raises ?dv kwargs (map fst kwargs) [] = Inl e" by blast
    then show ?thesis
      using move_args_ok [of args to_raises ?dv] True
      by (intro exI [of _ e] exI [of _ t] exI [of _ d]) (simp add: DeviceMover_forward_def)
  qed
qed

theorem DeviceMover_forward_moves_inputs_witness:
  "distinct (map fst example_kwargs)
   \<and> example_to 1 ''cpu'' (dm_device example_mover) = None
   \<and> example_to 2 ''cuda:1'' (dm_device example_mover) = None
   \<and> example_to 3 ''cuda:0'' (dm_device example_mover) = None
   \<and> (\<exists>args' kwargs'.
        DeviceMover_forward example_to example_mover example_args example_kwargs
          = dm_module example_mover args' kwargs'
        \<and> length args' = length example_args
        \<and> map fst kwargs' = map fst example_kwargs)
   \<and> DeviceMover_forward example_to example_mover example_args example_kwargs =
        Inr ([Tensor 1 ''cuda:1'', NonTensor 5, Tensor 2 ''cuda:1''],
             [(''mask'', Tensor 3 ''cuda:1''), (''use_cache'', NonTensor 0)])
   \<and> DeviceMover_forward example_to example_mover [] [] = Inr ([], [])"
proof -
  have d: "distinct (map fst example_kwargs)" by (simp add: example_kwargs_def)
  have ok: "\<forall>t d. Tensor t d \<in> set example_args \<union> snd ` set example_kwargs
              \<longrightarrow> example_to t d (dm_device example_mover) = None"
    by (auto simp: example_args_def example_kwargs_def example_to_def)
  have run: "DeviceMover_forward example_to example_mover example_args example_kwargs =
        Inr ([Tensor 1 ''cuda:1'', NonTensor 5, Tensor 2 ''cuda:1''],
             [(''mask'', Tensor 3 ''cuda:1''), (''use_cache'', NonTensor 0)])"
    by (simp add: DeviceMover_forward_def example_mover_def example_args_def example_kwargs_def
          example_to_def dict_get_def Let_def)
  have run0: "DeviceMover_forward example_to example_mover [] [] = Inr ([], [])"
    by (simp add: DeviceMover_forward_def example_mover_def)
  have each: "example_to 1 ''cpu'' (dm_device example_mover) = None
      \<and> example_to 2 ''cuda:1'' (dm_device example_mover) = None
      \<and> example_to 3 ''cuda:0'' (dm_device example_mover) = None"
    by (simp add: example_to_def example_mover_def)
  from DeviceMover_forward_moves_inputs [OF d, of example_args example_to example_mover]
    d ok each run run0
  show ?thesis by blast
qed

lemma DeviceMover_forward_meta_example:
  "DeviceMover_forward example_to example_mover [NonTensor 5, Tensor 1 ''meta''] example_kwargs
     = Inl (NotImplementedError ''Cannot copy out of meta tensor; no data!'')"
  "DeviceMover_forward example_to example_mover example_args [(''mask'', Tensor 3 ''meta'')]
     = Inl (NotImplementedError ''Cannot copy out of meta tensor; no data!'')"
  by (simp_all add: DeviceMover_forward_def example_mover_def example_args_def example_kwargs_def
        example_to_def dict_get_def Let_def)

text \<open>
  Claim C4. When the class name of a module is on the ignore list, \<open>distribute_module\<close>
  and \<open>distribute_layer\<close> return the module they were given, whatever the placement
  methods of the strategy are: the result does not depend on them, so they are not called.
\<close>

theorem distribute_ignored_unchanged:
  assumes "type_name m \<in> set ign"
  shows "distribute_module ign impl_module m final_layers model = Inr (Some m)
     \<and> distribute_layer ign impl_layer m layer model = Inr (Some m)"
  using assms by (simp add: distribute_module_def distribute_layer_def should_distribute_def)

theorem distribute_ignored_unchanged_witness:
  "distributed_strategy_ignore_modules example_environ = [''Embedding'', ''LLaMABlock'']
   \<and> type_name example_block \<in> set (distributed_strategy_ignore_modules example_environ)
   \<and> distribute_module (distributed_strategy_ignore_modules example_environ)
        (\<lambda>m final_layers model. Inl (ValueError ''placed'')) example_block True (Some ''llama'')
        = Inr (Some example_block)
   \<and> distribute_layer (distributed_strategy_ignore_modules example_environ)
        (\<lambda>block layer model. Inl (ValueError ''placed'')) example_block 0 (Some ''llama'')
        = Inr (Some example_block)"
proof -
  have ign: "distributed_strategy_ignore_modules example_environ = [''Embedding'', ''LLaMABlock'']"
    by (simp add: distributed_strategy_ignore_modules_def example_environ_def)
  have mem: "type_name example_block \<in> set (distributed_strategy_ignore_modules example_environ)"
    unfolding ign by (simp add: example_block_def)
  from distribute_ignored_unchanged [OF mem] ign mem show ?thesis by blast
qed

lemma NotDistributed_identity:
  "distribute_module ign NotDistributed_distribute_module m final_layers model = Inr (Some m)"
  "distribute_layer ign NotDistributed_distribute_layer m layer model = Inr (Some m)"
  by (simp_all add: distribute_module_def distribute_layer_def
        NotDistributed_distribute_module_def NotDistributed_distribute_layer_def)

text \<open>
  Claim C5. For a non-empty model tag other than \<open>llama\<close> and \<open>granite\<close>, the layer
  placement of the tensor-parallel strategy raises ValueError with the message
  \<open>Unsupported model: \<close> followed by the tag; it returns no value.
\<close>

theorem distribute_layer_unsupported_model:
  assumes "tag \<noteq> []" and "tag \<noteq> ''llama''" and "tag \<noteq> ''granite''"
  shows "TensorParallelStrategy_distribute_layer apply_tp parallelize_module self block layer (Some tag)
           = Inl (ValueError (''Unsupported model: '' @ tag))"
  using assms by (simp add: TensorParallelStrategy_distribute_layer_def not_model_def)

theorem distribute_layer_unsupported_model_witness:
  "''gpt2'' \<noteq> [] \<and> ''gpt2'' \<noteq> ''llama'' \<and> ''gpt2'' \<noteq> ''granite''
   \<and> TensorParallelStrategy_distribute_layer (\<lambda>m g. Inr m) (\<lambda>m mesh plan. Inr m)
        example_strategy example_block 0 (Some ''gpt2'')
        = Inl (ValueError ''Unsupported model: gpt2'')"
proof -
  have a: "''gpt2'' \<noteq> []" and b: "''gpt2'' \<noteq> ''llama''" and c: "''gpt2'' \<noteq> ''granite''"
    by simp_all
  from distribute_layer_unsupported_model [OF a b c, of "\<lambda>m g. Inr m" "\<lambda>m mesh plan. Inr m"
      example_strategy example_block 0] a b c
  show ?thesis by simp
qed

text \<open>
  Claim C6. When no process group is initialised, the constructor of the tensor-parallel
  strategy raises AssertionError, whatever the group argument, the environment, the world
  size query and the device-mesh creation would have given: none of them is reached.
\<close>

theorem init_requires_process_group:
  assumes "\<not> dist_is_initialized ps"
  shows "TensorParallelStrategy_init ps grp fm = Inl (AssertionError ''must initialize a process group'')"
  using assms by (simp add: TensorParallelStrategy_init_def)

theorem init_requires_process_group_witness:
  "\<not> dist_is_initialized uninitialized_process
   \<and> TensorParallelStrategy_init uninitialized_process (Some 1) True
        = Inl (AssertionError ''must initialize a process group'')"
proof -
  have u: "\<not> dist_is_initialized uninitialized_process"
    by (simp add: uninitialized_process_def)
  from init_requires_process_group [OF u] u show ?thesis by blast
qed

lemma init_initialized_example:
  "TensorParallelStrategy_init initialized_process None False =
     Inr \<lparr>from_meta = False, group = 0, use_sequence_parallelism = True,
          device_mesh = \<lparr>mesh_device_type = ''cuda'', mesh_shape = [2]\<rparr>\<rparr>"
  by code_simp

text \<open>
  Claim C7. For the model tags \<open>llama\<close> and \<open>granite\<close>, on a block with an attention
  object and a mesh of non-zero size, the layer placement hands to \<open>parallelize_module\<close>
  the block with both head counts replaced by their floor quotient by the mesh size, and
  returns its result. No divisibility is required: a remainder is dropped silently.
\<close>

theorem distribute_layer_divides_heads:
  assumes "tag = ''llama'' \<or> tag = ''granite''"
    and "attn block = Some a"
    and "mesh_size (device_mesh self) \<noteq> 0"
  shows "TensorParallelStrategy_distribute_layer apply_tp parallelize_module self block layer (Some tag)
           = returned (parallelize_module
               (block\<lparr>attn := Some (a\<lparr>nheads := nheads a div mesh_size (device_mesh self),
                                        kvheads := kvheads a div mesh_size (device_mesh self)\<rparr>)\<rparr>)
               (device_mesh self)
               (generate_layer_plan block (use_sequence_parallelism self)))"
  using assms
  by (auto simp: TensorParallelStrategy_distribute_layer_def not_model_def Let_def)

theorem distribute_layer_divides_heads_witness:
  "attn example_block = Some \<lparr>nheads = 7, kvheads = 3\<rparr>
   \<and> mesh_size (device_mesh example_strategy) = 2
   \<and> TensorParallelStrategy_distribute_layer (\<lambda>m g. Inr m) (\<lambda>m mesh plan. Inr m)
        example_strategy example_block 0 (Some ''granite'')
        = Inr (Some (example_block\<lparr>attn := Some \<lparr>nheads = 3, kvheads = 1\<rparr>\<rparr>))"
proof -
  have t: "''granite'' = ''llama'' \<or> ''granite'' = ''granite''" by simp
  have a: "attn example_block = Some \<lparr>nheads = 7, kvheads = 3\<rparr>"
    by (simp add: example_block_def)
  have sz: "mesh_size (device_mesh example_strategy) = 2"
    by (simp add: mesh_size_def example_strategy_def)
  then have nz: "mesh_size (device_mesh example_strategy) \<noteq> 0" by simp
  from distribute_layer_divides_heads [OF t a nz, of "\<lambda>m g. Inr m" "\<lambda>m mesh plan. Inr m" 0] a sz
  show ?thesis by (simp add: returned_def)
qed

text \<open>
  Claim C8. For a non-empty model tag other than \<open>llama\<close> and \<open>granite\<close>, the module
  placement of the tensor-parallel strategy raises nothing and returns \<open>None\<close>.
\<close>

theorem distribute_module_unsupported_model:
  assumes "tag \<noteq> []" and "tag \<noteq> ''llama''" and "tag \<noteq> ''granite''"
  shows "TensorParallelStrategy_distribute_module apply_tp parallelize_module self m final_layers (Some tag)
           = Inr None"
  using assms by (simp add: TensorParallelStrategy_distribute_module_def not_model_def)

theorem distribute_module_unsupported_model_witness:
  "''gpt2'' \<noteq> [] \<and> ''gpt2'' \<noteq> ''llama'' \<and> ''gpt2'' \<noteq> ''granite''
   \<and> TensorParallelStrategy_distribute_module (\<lambda>m g. Inr m) (\<lambda>m mesh plan. Inr m)
        example_strategy example_block True (Some ''gpt2'')
        = Inr None"
proof -
  have a: "''gpt2'' \<noteq> []" and b: "''gpt2'' \<noteq> ''llama''" and c: "''gpt2'' \<noteq> ''granite''"
    by simp_all
  from distribute_module_unsupported_model [OF a b c, of "\<lambda>m g. Inr m" "\<lambda>m mesh plan. Inr m"
      example_strategy example_block True] a b c
  show ?thesis by simp
qed

end
